theory Spec2Isabelle
  imports Main
begin

section \<open>Python strings\<close>

text \<open>
  A Python \<^verbatim>\<open>str\<close> is a sequence of Unicode code points. A code point is a natural
  number here, so that the titles, attribute values and text nodes of a page are arbitrary
  Unicode strings, not only one-byte ones. \<open>py\<close> embeds the ASCII literals of the program.
\<close>

type_synonym codepoint = nat
type_synonym pystr = "codepoint list"

definition py :: "string \<Rightarrow> pystr" where
  "py s = map of_char s"

text \<open>
  \<^verbatim>\<open>str.isspace\<close>, which is also the class \<^verbatim>\<open>\s\<close> of \<^verbatim>\<open>re\<close> on \<^verbatim>\<open>str\<close> patterns and
  the set that \<^verbatim>\<open>str.strip()\<close> removes: TAB..CR, FS..US, SPACE, NEL, NBSP, U+1680,
  U+2000..U+200A, U+2028, U+2029, U+202F, U+205F and U+3000.
\<close>

definition isspace :: "codepoint \<Rightarrow> bool" where
  "isspace c \<longleftrightarrow>
     (9 \<le> c \<and> c \<le> 13) \<or> (28 \<le> c \<and> c \<le> 32) \<or> c = 133 \<or> c = 160 \<or> c = 5760 \<or>
     (8192 \<le> c \<and> c \<le> 8202) \<or> c = 8232 \<or> c = 8233 \<or> c = 8239 \<or> c = 8287 \<or> c = 12288"

text \<open>\<^verbatim>\<open>s.strip()\<close> and \<^verbatim>\<open>s.rstrip("_")\<close>.\<close>

definition strip :: "pystr \<Rightarrow> pystr" where
  "strip s = rev (dropWhile isspace (rev (dropWhile isspace s)))"

definition rstrip_underscore :: "pystr \<Rightarrow> pystr" where
  "rstrip_underscore s = rev (dropWhile (\<lambda>c. c = 95) (rev s))"

text \<open>\<^verbatim>\<open>sep.join(parts)\<close>.\<close>

fun join :: "pystr \<Rightarrow> pystr list \<Rightarrow> pystr" where
  "join sep [] = []"
| "join sep [p] = p"
| "join sep (p # q # ps) = p @ sep @ join sep (q # ps)"

text \<open>
  \<^verbatim>\<open>s[:n]\<close>: the first \<open>n\<close> items, and for a negative \<open>n\<close> all but the last \<open>-n\<close>.
\<close>

definition slice_to :: "int \<Rightarrow> 'a list \<Rightarrow> 'a list" where
  "slice_to n xs = (if 0 \<le> n then take (nat n) xs else take (length xs - nat (- n)) xs)"

text \<open>
  \<^verbatim>\<open>s.upper()\<close> and \<^verbatim>\<open>s.lower()\<close> on the ASCII letters. The program upper-cases only
  strings over \<^verbatim>\<open>[A-Za-z0-9_-]\<close>, and compares a lower-cased string only with
  \<^verbatim>\<open>"content"\<close>, whose letters are the lower case of no code point outside ASCII.
\<close>

definition upper_cp :: "codepoint \<Rightarrow> codepoint" where
  "upper_cp c = (if 97 \<le> c \<and> c \<le> 122 then c - 32 else c)"

definition lower_cp :: "codepoint \<Rightarrow> codepoint" where
  "lower_cp c = (if 65 \<le> c \<and> c \<le> 90 then c + 32 else c)"

definition upper :: "pystr \<Rightarrow> pystr" where
  "upper s = map upper_cp s"

definition lower :: "pystr \<Rightarrow> pystr" where
  "lower s = map lower_cp s"

section \<open>The filename sanitizer\<close>

text \<open>\<^verbatim>\<open>string.punctuation\<close>: the 32 ASCII punctuation characters, \<^verbatim>\<open>-\<close> and \<^verbatim>\<open>_\<close> among them.\<close>

definition punctuation :: "codepoint \<Rightarrow> bool" where
  "punctuation c \<longleftrightarrow>
     (33 \<le> c \<and> c \<le> 47) \<or> (58 \<le> c \<and> c \<le> 64) \<or> (91 \<le> c \<and> c \<le> 96) \<or> (123 \<le> c \<and> c \<le> 126)"

definition WINDOWS_RESERVED :: "pystr list" where
  "WINDOWS_RESERVED = map py
     [''CON'', ''PRN'', ''AUX'', ''NUL'',
      ''COM1'', ''COM2'', ''COM3'', ''COM4'', ''COM5'', ''COM6'', ''COM7'', ''COM8'', ''COM9'',
      ''LPT1'', ''LPT2'', ''LPT3'', ''LPT4'', ''LPT5'', ''LPT6'', ''LPT7'', ''LPT8'', ''LPT9'']"

text \<open>\<^verbatim>\<open>re.sub(r"\s+", " ", s)\<close>: every maximal run of whitespace becomes one space.\<close>

function collapse_whitespace :: "pystr \<Rightarrow> pystr" where
  "collapse_whitespace [] = []"
| "collapse_whitespace (c # cs) =
     (if isspace c then 32 # collapse_whitespace (dropWhile isspace cs)
      else c # collapse_whitespace cs)"
  by pat_completeness auto
termination
  by (relation "measure length") (auto simp: less_Suc_eq_le length_dropWhile_le)

text \<open>\<^verbatim>\<open>s.translate(PUNCT_TABLE)\<close> deletes the punctuation.\<close>

definition translate_punct :: "pystr \<Rightarrow> pystr" where
  "translate_punct s = filter (\<lambda>c. \<not> punctuation c) s"

text \<open>\<^verbatim>\<open>s.replace(" ", "_")\<close>.\<close>

definition replace_space :: "pystr \<Rightarrow> pystr" where
  "replace_space s = map (\<lambda>c. if c = 32 then 95 else c) s"

text \<open>The class \<^verbatim>\<open>[A-Za-z0-9_\-]\<close>, and \<^verbatim>\<open>re.sub(r"[^A-Za-z0-9_\-]+", "", s)\<close>.\<close>

definition safe_char :: "codepoint \<Rightarrow> bool" where
  "safe_char c \<longleftrightarrow>
     (65 \<le> c \<and> c \<le> 90) \<or> (97 \<le> c \<and> c \<le> 122) \<or> (48 \<le> c \<and> c \<le> 57) \<or> c = 95 \<or> c = 45"

definition keep_safe :: "pystr \<Rightarrow> pystr" where
  "keep_safe s = filter safe_char s"

text \<open>
  Lines 36 to 39 of \<^verbatim>\<open>sanitize_filename\<close>: the value of \<^verbatim>\<open>base\<close> before the two
  guards.
\<close>

definition cleaned :: "pystr \<Rightarrow> pystr" where
  "cleaned title =
     keep_safe (replace_space (translate_punct (collapse_whitespace (strip title))))"

definition sanitize_filename :: "pystr \<Rightarrow> int \<Rightarrow> pystr" where
  "sanitize_filename title max_len =
     (let base = cleaned title;
          base = (if base = [] then py ''untitled'' else base);
          base = (if upper base \<in> set WINDOWS_RESERVED then [95] @ base @ [95] else base)
      in rstrip_underscore (slice_to max_len base))"

text \<open>
  Two names for the proofs: the letters and digits, and the value of \<^verbatim>\<open>base\<close> after
  the guards of lines 40 to 43.
\<close>

definition alnum :: "codepoint \<Rightarrow> bool" where
  "alnum c \<longleftrightarrow> (65 \<le> c \<and> c \<le> 90) \<or> (97 \<le> c \<and> c \<le> 122) \<or> (48 \<le> c \<and> c \<le> 57)"

definition guarded :: "pystr \<Rightarrow> pystr" where
  "guarded b =
     (let base = (if b = [] then py ''untitled'' else b)
      in if upper base \<in> set WINDOWS_RESERVED then [95] @ base @ [95] else base)"

section \<open>Parsed pages\<close>

text \<open>
  BeautifulSoup and its selector engine are libraries, so a parsed page is what the program
  asks of it. A \<open>tag\<close> has its attribute dictionary (\<^verbatim>\<open>tag.get(name)\<close> is \<open>attrs tag name\<close>),
  the text nodes below it in document order (what \<^verbatim>\<open>get_text\<close> iterates over) and the
  result of \<^verbatim>\<open>tag.select("p")\<close>. A tag object is always true in a condition, so
  \<^verbatim>\<open>if tag:\<close> is the test for \<open>Some\<close>.
\<close>

datatype tag = Tag (attrs: "string \<rightharpoonup> pystr") (strings: "pystr list") (select_p: "tag list")

text \<open>
  \<^verbatim>\<open>tag.get_text(sep, strip=True)\<close>: the stripped text nodes that are not empty, joined
  by \<open>sep\<close>; \<^verbatim>\<open>tag.get_text(strip=True)\<close> has the empty separator.
\<close>

definition get_text :: "pystr \<Rightarrow> tag \<Rightarrow> pystr" where
  "get_text sep t = join sep (filter (\<lambda>s. s \<noteq> []) (map strip (strings t)))"

text \<open>
  One \<^verbatim>\<open><article>\<close> block of a listing page with the two lookups of \<^verbatim>\<open>parse_listing\<close>:
  \<^verbatim>\<open>art.find("span", attrs={"data-test": "article.type"})\<close> and
  \<^verbatim>\<open>art.find("a", attrs={"data-track-action": "view article"})\<close>.
\<close>

datatype article_tag = ArticleTag (find_span: "tag option") (find_a: "tag option")

text \<open>
  The parsed document: \<^verbatim>\<open>soup.select_one(selector)\<close>, \<^verbatim>\<open>soup.find(name)\<close> and
  \<^verbatim>\<open>soup.find_all("article")\<close>. The body of a response is identified with its parse.
\<close>

record soup =
  select_one :: "string \<Rightarrow> tag option"
  soup_find :: "string \<Rightarrow> tag option"
  find_all_article :: "article_tag list"

section \<open>Title recovery\<close>

definition title_meta_selectors :: "(string \<times> string) list" where
  \<open>title_meta_selectors =
     [(''meta[property="og:title"]'', ''content''),
      (''meta[name="dc.title"]'', ''content''),
      (''meta[name="citation_title"]'', ''content''),
      (''meta[name="twitter:title"]'', ''content'')]\<close>

definition title_h1_selectors :: "string list" where
  "title_h1_selectors =
     [''h1.c-article-title'',
      ''h1[data-test='article-title']'',
      ''header.c-article-header h1'',
      ''article h1'']"

text \<open>The first loop of \<^verbatim>\<open>extract_title\<close>; \<open>None\<close> when it falls through.\<close>

fun title_from_meta :: "soup \<Rightarrow> (string \<times> string) list \<Rightarrow> pystr option" where
  "title_from_meta soup [] = None"
| "title_from_meta soup ((selector, attr) # rest) =
     (case select_one soup selector of
        None \<Rightarrow> title_from_meta soup rest
      | Some tag \<Rightarrow>
          (let val = strip (case attrs tag attr of None \<Rightarrow> [] | Some v \<Rightarrow> v)
           in if val \<noteq> [] \<and> lower val \<noteq> py ''content'' then Some val
              else title_from_meta soup rest))"

text \<open>The second loop.\<close>

fun title_from_h1 :: "soup \<Rightarrow> string list \<Rightarrow> pystr option" where
  "title_from_h1 soup [] = None"
| "title_from_h1 soup (sel # rest) =
     (case select_one soup sel of
        None \<Rightarrow> title_from_h1 soup rest
      | Some h1 \<Rightarrow>
          (let txt = get_text (py '' '') h1
           in if txt \<noteq> [] then Some txt else title_from_h1 soup rest))"

text \<open>
  The pattern \<^verbatim>\<open>\s*\|\s*Nature.*$\<close> tried at the start of \<open>s\<close>. Each \<^verbatim>\<open>\s*\<close> has to take
  the whole run of whitespace, since the character after it is not whitespace; \<^verbatim>\<open>.*\<close> stops
  at a newline, and \<^verbatim>\<open>$\<close> holds at the end of the string or before a newline that ends it.
  The result is the text after the match.
\<close>

definition nature_suffix :: "pystr \<Rightarrow> pystr option" where
  "nature_suffix s =
     (case dropWhile isspace s of
        [] \<Rightarrow> None
      | c # s1 \<Rightarrow>
          if c \<noteq> 124 then None
          else
            (let s2 = dropWhile isspace s1
             in if take 6 s2 = py ''Nature'' then
                  (let after = dropWhile (\<lambda>c. c \<noteq> 10) (drop 6 s2)
                   in if after = [] \<or> after = [10] then Some after else None)
                else None))"

text \<open>
  \<^verbatim>\<open>re.sub(r"\s*\|\s*Nature.*$", "", txt)\<close>: the leftmost match is removed; what follows a
  match is empty or one newline, where the pattern cannot match again.
\<close>

fun sub_nature_suffix :: "pystr \<Rightarrow> pystr" where
  "sub_nature_suffix [] = []"
| "sub_nature_suffix (c # cs) =
     (case nature_suffix (c # cs) of
        Some after \<Rightarrow> after
      | None \<Rightarrow> c # sub_nature_suffix cs)"

definition extract_title :: "soup \<Rightarrow> pystr" where
  "extract_title soup =
     (case title_from_meta soup title_meta_selectors of
        Some val \<Rightarrow> val
      | None \<Rightarrow>
          (case title_from_h1 soup title_h1_selectors of
             Some txt \<Rightarrow> txt
           | None \<Rightarrow>
               (let txt = (case soup_find soup ''title'' of
                             Some t \<Rightarrow> get_text [] t
                           | None \<Rightarrow> py ''No Title'')
                in sub_nature_suffix txt)))"

section \<open>Teaser, body and metadata\<close>

definition teaser_meta_selectors :: "(string \<times> string) list" where
  "teaser_meta_selectors =
     [(''meta[property='og:description']'', ''content''),
      (''meta[name='description']'', ''content'')]"

definition body_selectors :: "string list" where
  "body_selectors =
     [''div#content div.c-article-body'',
      ''div.c-article-body'',
      ''div[data-component='article-body']'',
      ''article div.article-item__body'']"

text \<open>Lines 83 to 91: the loop over the meta descriptions, with the variable \<^verbatim>\<open>teaser\<close>.\<close>

fun teaser_from_meta :: "soup \<Rightarrow> (string \<times> string) list \<Rightarrow> pystr \<Rightarrow> pystr" where
  "teaser_from_meta soup [] teaser = teaser"
| "teaser_from_meta soup ((selector, attr) # rest) teaser =
     (case select_one soup selector of
        None \<Rightarrow> teaser_from_meta soup rest teaser
      | Some tag \<Rightarrow>
          (case attrs tag attr of
             None \<Rightarrow> teaser_from_meta soup rest teaser
           | Some v \<Rightarrow>
               if v = [] then teaser_from_meta soup rest teaser
               else if strip v \<noteq> [] then strip v
               else teaser_from_meta soup rest (strip v)))"

text \<open>Lines 82 to 97: the teaser, from the meta descriptions or else the visible element.\<close>

definition extract_teaser :: "soup \<Rightarrow> pystr" where
  "extract_teaser soup =
     (let teaser = teaser_from_meta soup teaser_meta_selectors []
      in if teaser = [] then
           (case select_one soup ''p.article__teaser, div.c-article-teaser p'' of
              Some teaser_tag \<Rightarrow> get_text [] teaser_tag
            | None \<Rightarrow> teaser)
         else teaser)"

text \<open>Lines 109 and 110: the paragraph texts of a container that are not empty.\<close>

definition paragraphs :: "tag \<Rightarrow> pystr list" where
  "paragraphs body = filter (\<lambda>p. p \<noteq> []) (map (get_text (py '' '')) (select_p body))"

text \<open>Lines 100 to 112: the loop over the body containers, with the variable \<^verbatim>\<open>body_parts\<close>.\<close>

fun body_loop :: "soup \<Rightarrow> string list \<Rightarrow> pystr list \<Rightarrow> pystr list" where
  "body_loop soup [] body_parts = body_parts"
| "body_loop soup (sel # rest) body_parts =
     (case select_one soup sel of
        None \<Rightarrow> body_loop soup rest body_parts
      | Some body \<Rightarrow>
          if paragraphs body \<noteq> [] then paragraphs body
          else body_loop soup rest (paragraphs body))"

text \<open>
  Lines 120 to 126: the metadata dictionary. \<^verbatim>\<open>a or b\<close> on two lookups is the first tag
  found.
\<close>

definition extract_meta :: "soup \<Rightarrow> (string \<rightharpoonup> pystr)" where
  \<open>extract_meta soup =
     (let meta = Map.empty;
          pub = (case select_one soup ''meta[name="dc.date"]'' of
                   Some p \<Rightarrow> Some p
                 | None \<Rightarrow> select_one soup ''meta[itemprop="datePublished"]'');
          meta = (case pub of
                    None \<Rightarrow> meta
                  | Some p \<Rightarrow>
                      (case attrs p ''content'' of
                         None \<Rightarrow> meta
                       | Some v \<Rightarrow> if v \<noteq> [] then meta(''published'' \<mapsto> v) else meta));
          t = (case select_one soup ''meta[name="dc.type"]'' of
                 Some t \<Rightarrow> Some t
               | None \<Rightarrow> select_one soup ''span[data-test="article.type"]'')
      in case t of
           None \<Rightarrow> meta
         | Some t \<Rightarrow>
             meta(''type'' \<mapsto> (case attrs t ''content'' of Some v \<Rightarrow> v | None \<Rightarrow> get_text [] t)))\<close>

definition no_content :: pystr where
  "no_content = py ''No content available.''"

definition extract_teaser_or_body :: "soup \<Rightarrow> pystr \<times> (string \<rightharpoonup> pystr)" where
  "extract_teaser_or_body soup =
     (let teaser = extract_teaser soup;
          body_parts = body_loop soup body_selectors [];
          text = strip (join [10, 10] body_parts);
          text = (if text = [] then strip teaser else text);
          text = (if text = [] then no_content else text)
      in (text, extract_meta soup))"

text \<open>
  For the statements about the text: a string without leading and trailing whitespace, the
  paragraphs a selector's container yields, and the reading of the body rule that stops at
  the first container found, whether or not it holds a paragraph.
\<close>

definition stripped :: "pystr \<Rightarrow> bool" where
  "stripped s \<longleftrightarrow> s = [] \<or> (\<not> isspace (hd s) \<and> \<not> isspace (last s))"

definition container_paragraphs :: "soup \<Rightarrow> string \<Rightarrow> pystr list" where
  "container_paragraphs soup sel =
     (case select_one soup sel of None \<Rightarrow> [] | Some body \<Rightarrow> paragraphs body)"

definition first_container_text :: "soup \<Rightarrow> pystr" where
  "first_container_text soup =
     (let parts = (case find (\<lambda>sel. select_one soup sel \<noteq> None) body_selectors of
                     None \<Rightarrow> []
                   | Some sel \<Rightarrow> container_paragraphs soup sel)
      in if parts \<noteq> [] then join [10, 10] parts
         else if extract_teaser soup \<noteq> [] then extract_teaser soup
         else no_content)"

section \<open>The listing parser\<close>

definition BASE_URL :: pystr where
  "BASE_URL = py ''https://www.nature.com''"

record item =
  item_url :: pystr
  item_type :: "pystr option"

text \<open>
  \<^verbatim>\<open>parse_listing\<close>, over the parsed page; \<^verbatim>\<open>urljoin\<close> of the standard library is a
  parameter.
\<close>

fun parse_articles :: "(pystr \<Rightarrow> pystr \<Rightarrow> pystr) \<Rightarrow> article_tag list \<Rightarrow> item list" where
  "parse_articles urljoin [] = []"
| "parse_articles urljoin (art # arts) =
     (let type_tag = find_span art; link_tag = find_a art
      in case link_tag of
           None \<Rightarrow> parse_articles urljoin arts
         | Some link \<Rightarrow>
             (case attrs link ''href'' of
                None \<Rightarrow> parse_articles urljoin arts
              | Some href \<Rightarrow>
                  if href = [] then parse_articles urljoin arts
                  else \<lparr>item_url = urljoin BASE_URL href,
                        item_type = (case type_tag of
                                       Some t \<Rightarrow> Some (get_text [] t)
                                     | None \<Rightarrow> None)\<rparr>
                       # parse_articles urljoin arts))"

definition parse_listing :: "(pystr \<Rightarrow> pystr \<Rightarrow> pystr) \<Rightarrow> soup \<Rightarrow> item list" where
  "parse_listing urljoin html = parse_articles urljoin (find_all_article html)"

section \<open>The crawl\<close>

text \<open>Decimal and hexadecimal numerals: \<^verbatim>\<open>str(n)\<close> and \<^verbatim>\<open>hex(n)[2:]\<close>.\<close>

function to_base :: "nat \<Rightarrow> nat \<Rightarrow> nat list" where
  "to_base b n = (if n < b \<or> b < 2 then [n] else to_base b (n div b) @ [n mod b])"
  by pat_completeness auto
termination
  by (relation "measure snd") auto

declare to_base.simps [simp del]

definition digit_char :: "nat \<Rightarrow> codepoint" where
  "digit_char d = (if d < 10 then 48 + d else 87 + d)"

definition str_int :: "int \<Rightarrow> pystr" where
  "str_int i =
     (if i < 0 then 45 # map digit_char (to_base 10 (nat (- i)))
      else map digit_char (to_base 10 (nat i)))"

definition hex :: "nat \<Rightarrow> pystr" where
  "hex n = map digit_char (to_base 16 n)"

text \<open>
  What a run does to the outside is a list of events: a request \<^verbatim>\<open>session.get(url,
  timeout=t)\<close>, with \<open>t = 15\<close> for a listing page and \<open>t = 20\<close> for an article, and a call
  \<^verbatim>\<open>time.sleep(delay)\<close>. A request returns a response or raises
  \<^verbatim>\<open>requests.RequestException\<close>.
\<close>

datatype event = Get pystr nat | Sleep

datatype response = Response int soup | RequestException

text \<open>
  The environment of a run: the network, which may answer by everything that happened
  before; the built-in \<^verbatim>\<open>hash\<close> on strings, which differs from process to process; and
  \<^verbatim>\<open>urljoin\<close>.
\<close>

record env =
  http :: "event list \<Rightarrow> pystr \<Rightarrow> response"
  py_hash :: "pystr \<Rightarrow> int"
  urljoin :: "pystr \<Rightarrow> pystr \<Rightarrow> pystr"

text \<open>A path below the output directory is the list of its components.\<close>

type_synonym path = "pystr list"

text \<open>One line of \<^verbatim>\<open>metadata.jsonl\<close>.\<close>

record metadata =
  rec_title :: pystr
  rec_url :: pystr
  rec_file :: path
  rec_page :: int
  rec_published :: "pystr option"
  rec_type :: "pystr option"
  rec_listed_type :: "pystr option"

text \<open>
  The state of a run: the set \<^verbatim>\<open>seen\<close>, the counter \<^verbatim>\<open>saved\<close>, the text files below the
  output directory, the lines appended to \<^verbatim>\<open>meta_f\<close>, and the events so far. Writing a
  file is taken to succeed.
\<close>

record state =
  seen :: "pystr set"
  saved :: int
  files :: "path \<rightharpoonup> pystr"
  meta_f :: "metadata list"
  trace :: "event list"

definition session_get :: "env \<Rightarrow> pystr \<Rightarrow> nat \<Rightarrow> state \<Rightarrow> response \<times> state" where
  "session_get e url timeout st =
     (http e (trace st) url, st\<lparr>trace := trace st @ [Get url timeout]\<rparr>)"

definition sleep :: "state \<Rightarrow> state" where
  "sleep st = st\<lparr>trace := trace st @ [Sleep]\<rparr>"

text \<open>Line 192: \<^verbatim>\<open>fname = sanitize_filename(title) or "article"\<close>.\<close>

definition article_fname :: "pystr \<Rightarrow> pystr" where
  "article_fname title =
     (let fname = sanitize_filename title 120 in if fname = [] then py ''article'' else fname)"

text \<open>Line 200: \<^verbatim>\<open>suffix = hex(abs(hash(url)) % (16**6))[2:]\<close>.\<close>

definition hash_suffix :: "env \<Rightarrow> pystr \<Rightarrow> pystr" where
  "hash_suffix e url = hex (nat (\<bar>py_hash e url\<bar> mod 16 ^ 6))"

text \<open>Lines 196 to 201: the path the article is written to.\<close>

definition article_path :: "env \<Rightarrow> (path \<rightharpoonup> pystr) \<Rightarrow> pystr \<Rightarrow> pystr \<Rightarrow> pystr \<Rightarrow> path" where
  "article_path e fs dir_name fname url =
     (let filepath = [dir_name, fname @ py ''.txt'']
      in if fs filepath \<noteq> None then [dir_name, fname @ py ''_'' @ hash_suffix e url @ py ''.txt'']
         else filepath)"

text \<open>Lines 192 to 214: an article that was fetched is saved.\<close>

definition save_article :: "env \<Rightarrow> pystr \<Rightarrow> int \<Rightarrow> item \<Rightarrow> soup \<Rightarrow> state \<Rightarrow> state" where
  "save_article e dir_name page_num it asoup st =
     (let url = item_url it;
          title = extract_title asoup;
          (text, meta) = extract_teaser_or_body asoup;
          fname = article_fname title;
          filepath = article_path e (files st) dir_name fname url;
          text = (if strip text = [] then no_content else text);
          st = st\<lparr>files := (files st)(filepath \<mapsto> text)\<rparr>;
          rec = \<lparr>rec_title = title, rec_url = url, rec_file = filepath, rec_page = page_num,
                 rec_published = meta ''published'', rec_type = meta ''type'',
                 rec_listed_type = item_type it\<rparr>;
          st = st\<lparr>meta_f := meta_f st @ [rec]\<rparr>;
          st = st\<lparr>saved := saved st + 1\<rparr>
      in sleep st)"

text \<open>Lines 174 to 214: the body of the loop over the matched items.\<close>

definition process_item :: "env \<Rightarrow> pystr \<Rightarrow> int \<Rightarrow> state \<Rightarrow> item \<Rightarrow> state" where
  "process_item e dir_name page_num st it =
     (let url = item_url it
      in if url \<in> seen st then st
         else
           (let st = st\<lparr>seen := insert url (seen st)\<rparr>;
                (aresp, st) = session_get e url 20 st
            in case aresp of
                 RequestException \<Rightarrow> st
               | Response status_code content \<Rightarrow>
                   if status_code \<noteq> 200 then st
                   else save_article e dir_name page_num it content st))"

text \<open>Line 166: the items of a listing that pass the type filter.\<close>

definition matched :: "pystr \<Rightarrow> item list \<Rightarrow> item list" where
  "matched article_type listing =
     filter (\<lambda>it. article_type = [] \<or>
                   strip (case item_type it of None \<Rightarrow> [] | Some t \<Rightarrow> t) = article_type)
       listing"

text \<open>Lines 151 to 154: the address of a listing page; \<^verbatim>\<open>if year:\<close> is false for 0 too.\<close>

definition listing_url :: "int option \<Rightarrow> int \<Rightarrow> pystr" where
  "listing_url year page_num =
     BASE_URL @ py ''/nature/articles?sort=PubDate'' @
     (case year of None \<Rightarrow> [] | Some y \<Rightarrow> if y \<noteq> 0 then py ''&year='' @ str_int y else []) @
     py ''&page='' @ str_int page_num"

text \<open>Lines 149 to 216: the body of the loop over the pages.\<close>

definition process_page :: "env \<Rightarrow> pystr \<Rightarrow> int option \<Rightarrow> state \<Rightarrow> int \<Rightarrow> state" where
  "process_page e article_type year st page_num =
     (let dir_name = py ''Page_'' @ str_int page_num;
          url = listing_url year page_num;
          (resp, st) = session_get e url 15 st
      in case resp of
           RequestException \<Rightarrow> st
         | Response status_code content \<Rightarrow>
             if status_code \<noteq> 200 then st
             else
               (let listing = parse_listing (urljoin e) content
                in if matched article_type listing = [] then sleep st
                   else foldl (process_item e dir_name page_num) st
                          (matched article_type listing)))"

text \<open>
  \<^verbatim>\<open>scrape_nature\<close>, from the files \<open>fs\<close> found below the output directory; its return value
  is the field \<open>saved\<close> of the final state.
\<close>

definition initial :: "(path \<rightharpoonup> pystr) \<Rightarrow> state" where
  "initial fs = \<lparr>seen = {}, saved = 0, files = fs, meta_f = [], trace = []\<rparr>"

definition scrape_nature ::
  "env \<Rightarrow> int \<Rightarrow> pystr \<Rightarrow> int option \<Rightarrow> (path \<rightharpoonup> pystr) \<Rightarrow> state" where
  "scrape_nature e pages article_type year fs =
     foldl (process_page e article_type year) (initial fs) [1..pages]"

text \<open>The article requests of a trace, and the traces with a sleep between any two requests.\<close>

fun fetched :: "event list \<Rightarrow> pystr list" where
  "fetched [] = []"
| "fetched (Get url timeout # es) = (if timeout = 20 then url # fetched es else fetched es)"
| "fetched (Sleep # es) = fetched es"

fun delayed :: "event list \<Rightarrow> bool" where
  "delayed (Get u s # Get v t # es) = False"
| "delayed (x # es) = delayed es"
| "delayed [] = True"

text \<open>
  What holds of the state all through a run: the article requests are pairwise distinct
  and are the set \<^verbatim>\<open>seen\<close>, the records have pairwise distinct addresses, all of them
  requested, and \<^verbatim>\<open>saved\<close> counts the records.
\<close>

definition run_invariant :: "state \<Rightarrow> bool" where
  "run_invariant st \<longleftrightarrow>
     distinct (fetched (trace st)) \<and> seen st = set (fetched (trace st)) \<and>
     distinct (map rec_url (meta_f st)) \<and> set (map rec_url (meta_f st)) \<subseteq> seen st \<and>
     saved st = int (length (meta_f st))"

text \<open>The lower-case hexadecimal digits.\<close>

definition hexdigit :: "codepoint \<Rightarrow> bool" where
  "hexdigit c \<longleftrightarrow> (48 \<le> c \<and> c \<le> 57) \<or> (97 \<le> c \<and> c \<le> 102)"

section \<open>Example pages and an example site\<close>

text \<open>An element that holds one text node, and the page on which no lookup finds a tag.\<close>

definition leaf :: "pystr \<Rightarrow> tag" where
  "leaf s = Tag Map.empty [s] []"

definition blank_page :: soup where
  "blank_page =
     \<lparr>select_one = (\<lambda>sel. None), soup_find = (\<lambda>name. None), find_all_article = []\<rparr>"

text \<open>
  \<^verbatim>\<open><div class="c-article-body"><p>A.</p><p>B.</p><p>C.</p></div>\<close>: a body container with three
  paragraphs and no teaser.
\<close>

definition page_abc :: soup where
  "page_abc = blank_page\<lparr>select_one := (\<lambda>sel.
     if sel = ''div.c-article-body''
     then Some (Tag Map.empty [py ''A.'', py ''B.'', py ''C.'']
                  [leaf (py ''A.''), leaf (py ''B.''), leaf (py ''C.'')])
     else None)\<rparr>"

text \<open>
  \<^verbatim>\<open><div class="c-article-body"></div><div data-component="article-body"><p>X</p></div>\<close>: the
  first container found is empty, a later one holds a paragraph.
\<close>

definition page_two_containers :: soup where
  "page_two_containers = blank_page\<lparr>select_one := (\<lambda>sel.
     if sel = ''div.c-article-body'' then Some (Tag Map.empty [] [])
     else if sel = ''div[data-component='article-body']''
     then Some (Tag [''data-component'' \<mapsto> py ''article-body''] [py ''X''] [leaf (py ''X'')])
     else None)\<rparr>"

text \<open>\<^verbatim>\<open><html><head><title></title></head><body></body></html>\<close>: an empty title element.\<close>

definition page_empty_title :: soup where
  "page_empty_title = blank_page\<lparr>soup_find := (\<lambda>name.
     if name = ''title'' then Some (Tag Map.empty [] []) else None)\<rparr>"

text \<open>\<^verbatim>\<open><meta name="dc.type" content="">\<close>: a type tag with an empty value.\<close>

definition page_empty_type :: soup where
  \<open>page_empty_type = blank_page\<lparr>select_one := (\<lambda>sel.
     if sel = ''meta[name="dc.type"]''
     then Some (Tag [''name'' \<mapsto> py ''dc.type'', ''content'' \<mapsto> []] [] [])
     else None)\<rparr>\<close>

text \<open>An article page with \<^verbatim>\<open><title>First | Nature</title>\<close>, and one with \<^verbatim>\<open><title>- -</title>\<close>.\<close>

definition page_first :: soup where
  "page_first = blank_page\<lparr>soup_find := (\<lambda>name.
     if name = ''title'' then Some (leaf (py ''First | Nature'')) else None)\<rparr>"

definition page_dashes :: soup where
  "page_dashes = blank_page\<lparr>soup_find := (\<lambda>name.
     if name = ''title'' then Some (leaf (py ''- -'')) else None)\<rparr>"

text \<open>
  A listing block: the type label, if any, and the link
  \<^verbatim>\<open><a data-track-action="view article" href="...">\<close>.
\<close>

definition summary :: "pystr option \<Rightarrow> pystr \<Rightarrow> article_tag" where
  "summary label href =
     ArticleTag (map_option leaf label)
       (Some (Tag [''data-track-action'' \<mapsto> py ''view article'', ''href'' \<mapsto> href] [] []))"

definition url_a :: pystr where
  "url_a = py ''https://www.nature.com/articles/d41586-024-00001-1''"

definition url_b :: pystr where
  "url_b = py ''https://www.nature.com/articles/d41586-024-00079-1''"

definition url_c :: pystr where
  "url_c = py ''https://www.nature.com/articles/d41586-024-00080-1''"

text \<open>A listing with the two articles, both labelled News.\<close>

definition listing_two :: soup where
  "listing_two = blank_page\<lparr>find_all_article :=
     [summary (Some (py ''News'')) (py ''/articles/d41586-024-00001-1''),
      summary (Some (py ''News'')) (py ''/articles/d41586-024-00079-1'')]\<rparr>"

text \<open>A listing with one article labelled News, one labelled Comment and one without label.\<close>

definition listing_three :: soup where
  "listing_three = blank_page\<lparr>find_all_article :=
     [summary (Some (py ''News'')) (py ''/articles/d41586-024-00001-1''),
      summary (Some (py ''Comment'')) (py ''/articles/d41586-024-00079-1''),
      summary None (py ''/articles/d41586-024-00080-1'')]\<rparr>"

text \<open>
  A site that answers every listing request with \<open>listing_two\<close> and both articles with
  \<open>page_first\<close>, so that the two articles have the same title. The hash values are those of
  CPython 3.11 started with \<^verbatim>\<open>PYTHONHASHSEED=0\<close>; \<^verbatim>\<open>urljoin\<close> of the base address and an
  absolute path is their concatenation.
\<close>

definition web :: env where
  "web =
     \<lparr>http = (\<lambda>tr url. if url = url_a \<or> url = url_b then Response 200 page_first
                       else Response 200 listing_two),
      py_hash = (\<lambda>url. if url = url_a then - 2559383065572799767
                        else if url = url_b then - 8794739511902494365 else 0),
      urljoin = (\<lambda>base href. base @ href)\<rparr>"

text \<open>The two entries that \<^verbatim>\<open>parse_listing\<close> reads off that listing.\<close>

definition item_a :: item where
  "item_a = \<lparr>item_url = url_a, item_type = Some (py ''News'')\<rparr>"

definition item_b :: item where
  "item_b = \<lparr>item_url = url_b, item_type = Some (py ''News'')\<rparr>"


section \<open>Properties of the sanitizer\<close>

lemmas str_eval = py_def strip_def isspace_def rstrip_underscore_def slice_to_def
  upper_def upper_cp_def lower_def lower_cp_def punctuation_def WINDOWS_RESERVED_def
  translate_punct_def replace_space_def safe_char_def keep_safe_def cleaned_def
  sanitize_filename_def

lemma rstrip_underscore_subset: "set (rstrip_underscore s) \<subseteq> set s"
  by (auto simp: rstrip_underscore_def dest: set_dropWhileD)

lemma rstrip_underscore_length: "length (rstrip_underscore s) \<le> length s"
  by (simp add: rstrip_underscore_def length_dropWhile_le [of _ "rev s", simplified])

lemma rstrip_underscore_last:
  "rstrip_underscore s \<noteq> [] \<Longrightarrow> last (rstrip_underscore s) \<noteq> 95"
  using hd_dropWhile [of "\<lambda>c. c = 95" "rev s"]
  by (simp add: rstrip_underscore_def last_rev)

lemma rstrip_underscore_Nil_iff: "rstrip_underscore s = [] \<longleftrightarrow> (\<forall>c\<in>set s. c = 95)"
  by (simp add: rstrip_underscore_def dropWhile_eq_Nil_conv)

lemma rstrip_underscore_id: "95 \<notin> set s \<Longrightarrow> rstrip_underscore s = s"
proof -
  assume a: "95 \<notin> set s"
  have "dropWhile (\<lambda>c. c = 95) (rev s) = rev s"
    by (cases "rev s") (use a in \<open>auto simp: rev_swap\<close>)
  then show ?thesis by (simp add: rstrip_underscore_def)
qed

lemma rstrip_underscore_wrap:
  "95 \<notin> set s \<Longrightarrow> s \<noteq> [] \<Longrightarrow> rstrip_underscore ([95] @ s @ [95]) = 95 # s"
proof -
  assume a: "95 \<notin> set s" and b: "s \<noteq> []"
  have "dropWhile (\<lambda>c. c = 95) (rev s) = rev s"
    by (cases "rev s") (use a in \<open>auto simp: rev_swap\<close>)
  moreover have "\<exists>x\<in>set s. x \<noteq> 95" using a b by (cases s) auto
  ultimately show ?thesis by (simp add: rstrip_underscore_def dropWhile_append)
qed

lemma upper_cp_underscore: "upper_cp c = 95 \<longleftrightarrow> c = 95"
  by (auto simp: upper_cp_def)

lemma reserved_words: "\<forall>w\<in>set WINDOWS_RESERVED. w \<noteq> [] \<and> length w \<le> 4 \<and> 95 \<notin> set w"
  by (simp add: WINDOWS_RESERVED_def py_def)

lemma reserved_shape:
  assumes "upper b \<in> set WINDOWS_RESERVED"
  shows "b \<noteq> [] \<and> length b \<le> 4 \<and> 95 \<notin> set b"
proof -
  from assms reserved_words
  have w: "upper b \<noteq> [] \<and> length (upper b) \<le> 4 \<and> 95 \<notin> set (upper b)" by blast
  have "95 \<in> set b \<Longrightarrow> 95 \<in> set (upper b)"
    by (force simp: upper_def upper_cp_underscore)
  with w show ?thesis by (auto simp: upper_def)
qed

lemma untitled_not_reserved: "upper (py ''untitled'') \<notin> set WINDOWS_RESERVED"
  by (simp add: str_eval)

lemma cleaned_chars: "\<forall>c\<in>set (cleaned t). alnum c \<or> c = 95"
  by (auto simp: cleaned_def keep_safe_def replace_space_def translate_punct_def safe_char_def
      punctuation_def alnum_def split: if_splits)

lemma alnum_safe: "alnum c \<or> c = 95 \<Longrightarrow> safe_char c"
  by (auto simp: alnum_def safe_char_def)

lemma untitled_chars: "\<forall>c\<in>set (py ''untitled''). alnum c"
  by (simp add: py_def alnum_def)

lemma sanitize_filename_guarded:
  "sanitize_filename t n = rstrip_underscore (slice_to n (guarded (cleaned t)))"
  by (simp add: sanitize_filename_def guarded_def Let_def)

lemma guarded_chars:
  "\<forall>c\<in>set b. alnum c \<or> c = 95 \<Longrightarrow> \<forall>c\<in>set (guarded b). alnum c \<or> c = 95"
  using untitled_chars by (auto simp: guarded_def Let_def)

lemma slice_to_subset: "set (slice_to n xs) \<subseteq> set xs"
  by (auto simp: slice_to_def dest: in_set_takeD)

lemma sanitize_filename_chars: "\<forall>c\<in>set (sanitize_filename t n). alnum c \<or> c = 95"
proof -
  have "set (sanitize_filename t n) \<subseteq> set (guarded (cleaned t))"
    unfolding sanitize_filename_guarded
    using rstrip_underscore_subset slice_to_subset by fast
  with guarded_chars [OF cleaned_chars] show ?thesis by blast
qed

lemma sanitize_filename_length: "length (sanitize_filename t 120) \<le> 120"
proof -
  have "length (sanitize_filename t 120) \<le> length (slice_to 120 (guarded (cleaned t)))"
    unfolding sanitize_filename_guarded by (rule rstrip_underscore_length)
  also have "\<dots> \<le> 120" by (simp add: slice_to_def)
  finally show ?thesis .
qed

lemma sanitize_filename_cases:
  "sanitize_filename t 120 =
     (if cleaned t = [] then py ''untitled''
      else if upper (cleaned t) \<in> set WINDOWS_RESERVED then 95 # cleaned t
      else rstrip_underscore (take 120 (cleaned t)))"
proof (cases "cleaned t = []")
  case True
  then show ?thesis
    by (simp add: sanitize_filename_guarded guarded_def)
       (simp add: str_eval)
next
  case False
  show ?thesis
  proof (cases "upper (cleaned t) \<in> set WINDOWS_RESERVED")
    case True
    from reserved_shape [OF True]
    have s: "cleaned t \<noteq> []" "length (cleaned t) \<le> 4" "95 \<notin> set (cleaned t)" by auto
    have "slice_to 120 ([95] @ cleaned t @ [95]) = [95] @ cleaned t @ [95]"
      using s(2) by (simp add: slice_to_def)
    then show ?thesis
      using True False rstrip_underscore_wrap [OF s(3) s(1)]
      by (simp add: sanitize_filename_guarded guarded_def)
  next
    case nr: False
    then show ?thesis using False
      by (simp add: sanitize_filename_guarded guarded_def slice_to_def)
  qed
qed

lemma sanitize_filename_empty_iff:
  "sanitize_filename t 120 = [] \<longleftrightarrow>
     cleaned t \<noteq> [] \<and> (\<forall>c\<in>set (take 120 (cleaned t)). c = 95)"
proof (cases "upper (cleaned t) \<in> set WINDOWS_RESERVED")
  case True
  from reserved_shape [OF True]
  have s: "cleaned t \<noteq> []" "length (cleaned t) \<le> 4" "95 \<notin> set (cleaned t)" by auto
  then have "\<exists>c\<in>set (take 120 (cleaned t)). c \<noteq> 95" by (cases "cleaned t") auto
  then show ?thesis using True s by (auto simp: sanitize_filename_cases)
next
  case False
  then show ?thesis
    by (auto simp: sanitize_filename_cases rstrip_underscore_Nil_iff py_def)
qed

text \<open>
  Claim C1, as the code has it. For every title, \<^verbatim>\<open>sanitize_filename\<close> with the maximum
  length 120 returns at most 120 characters of \<^verbatim>\<open>[A-Za-z0-9_-]\<close> and no trailing underscore.
  The result is empty exactly when the cleaned title is not empty and its first 120
  characters are all underscores (line 192 of the caller then takes \<^verbatim>\<open>"article"\<close>). A
  cleaned title that is a reserved device name in any case is returned with one leading
  underscore.
\<close>

theorem sanitize_filename_shape:
  "(\<forall>c\<in>set (sanitize_filename t 120). safe_char c) \<and>
   length (sanitize_filename t 120) \<le> 120 \<and>
   (sanitize_filename t 120 \<noteq> [] \<longrightarrow> last (sanitize_filename t 120) \<noteq> 95) \<and>
   (sanitize_filename t 120 = [] \<longleftrightarrow>
      cleaned t \<noteq> [] \<and> (\<forall>c\<in>set (take 120 (cleaned t)). c = 95)) \<and>
   (upper (cleaned t) \<in> set WINDOWS_RESERVED \<longrightarrow> sanitize_filename t 120 = 95 # cleaned t)"
proof -
  have a: "\<forall>c\<in>set (sanitize_filename t 120). safe_char c"
    using sanitize_filename_chars alnum_safe by blast
  have b: "sanitize_filename t 120 \<noteq> [] \<longrightarrow> last (sanitize_filename t 120) \<noteq> 95"
    unfolding sanitize_filename_guarded using rstrip_underscore_last by blast
  have c: "upper (cleaned t) \<in> set WINDOWS_RESERVED \<longrightarrow> sanitize_filename t 120 = 95 # cleaned t"
    using reserved_shape [of "cleaned t"] by (simp add: sanitize_filename_cases)
  from a b c sanitize_filename_length sanitize_filename_empty_iff show ?thesis by blast
qed

lemma alnum_not_space: "alnum c \<or> c = 95 \<Longrightarrow> \<not> isspace c"
  by (auto simp: alnum_def isspace_def)

lemma dropWhile_none: "\<forall>c\<in>set s. \<not> P c \<Longrightarrow> dropWhile P s = s"
  by (cases s) auto

lemma strip_id: "\<forall>c\<in>set s. \<not> isspace c \<Longrightarrow> strip s = s"
  by (simp add: strip_def dropWhile_none)

lemma collapse_whitespace_id: "\<forall>c\<in>set s. \<not> isspace c \<Longrightarrow> collapse_whitespace s = s"
  by (induction s) auto

lemma cleaned_of_name:
  assumes "\<forall>c\<in>set r. alnum c \<or> c = 95"
  shows "cleaned r = filter (\<lambda>c. c \<noteq> 95) r"
proof -
  have ns: "\<forall>c\<in>set r. \<not> isspace c" using assms alnum_not_space by blast
  have 1: "translate_punct r = filter (\<lambda>c. c \<noteq> 95) r"
    unfolding translate_punct_def
    by (rule filter_cong) (use assms in \<open>auto simp: alnum_def punctuation_def\<close>)
  have 2: "replace_space (filter (\<lambda>c. c \<noteq> 95) r) = filter (\<lambda>c. c \<noteq> 95) r"
    unfolding replace_space_def
    by (rule map_idI) (use assms in \<open>auto simp: alnum_def\<close>)
  have 3: "keep_safe (filter (\<lambda>c. c \<noteq> 95) r) = filter (\<lambda>c. c \<noteq> 95) r"
    unfolding keep_safe_def
    by (rule filter_True) (use assms in \<open>auto simp: alnum_def safe_char_def\<close>)
  show ?thesis
    by (simp add: cleaned_def strip_id [OF ns] collapse_whitespace_id [OF ns] 1 2 3)
qed

lemma sanitize_filename_of_name:
  assumes ch: "\<forall>c\<in>set r. alnum c \<or> c = 95" and len: "length r \<le> 120"
  shows "sanitize_filename r 120 =
     (let r' = filter (\<lambda>c. c \<noteq> 95) r
      in if r' = [] then py ''untitled''
         else if upper r' \<in> set WINDOWS_RESERVED then 95 # r' else r')"
proof -
  let ?r' = "filter (\<lambda>c. c \<noteq> 95) r"
  have "length ?r' \<le> length r" by simp
  then have "length ?r' \<le> 120" using len by (rule le_trans)
  then have "take 120 ?r' = ?r'" by simp
  moreover have "rstrip_underscore ?r' = ?r'" by (rule rstrip_underscore_id) simp
  ultimately show ?thesis
    by (simp add: sanitize_filename_cases cleaned_of_name [OF ch] Let_def)
qed

lemma untitled_no_underscore: "95 \<notin> set (py ''untitled'')" "py ''untitled'' \<noteq> []"
  by (simp_all add: py_def)

lemma filter_no_underscore: "filter (\<lambda>c. c \<noteq> (95::nat)) r = r \<longleftrightarrow> 95 \<notin> set r"
  by (auto simp: filter_id_conv)

text \<open>
  Claim C2, as the code has it. Sanitizing a sanitized name \<open>r\<close> gives \<open>r\<close> again exactly
  when \<open>r\<close> is not empty, has no underscore and is not a reserved device name, or when \<open>r\<close>
  is a reserved device name after one underscore. The underscores that stand for spaces
  are punctuation for the second pass, which deletes them.
\<close>

theorem sanitize_filename_fixpoint:
  "sanitize_filename (sanitize_filename t 120) 120 = sanitize_filename t 120 \<longleftrightarrow>
     (let r = sanitize_filename t 120
      in (r \<noteq> [] \<and> 95 \<notin> set r \<and> upper r \<notin> set WINDOWS_RESERVED) \<or>
         (r \<noteq> [] \<and> hd r = 95 \<and> upper (tl r) \<in> set WINDOWS_RESERVED))"
proof -
  define r where "r = sanitize_filename t 120"
  define r' where "r' = filter (\<lambda>c. c \<noteq> 95) r"
  have ch: "\<forall>c\<in>set r. alnum c \<or> c = 95" and len: "length r \<le> 120"
    unfolding r_def using sanitize_filename_chars sanitize_filename_length by auto
  have s: "sanitize_filename r 120 =
     (if r' = [] then py ''untitled''
      else if upper r' \<in> set WINDOWS_RESERVED then 95 # r' else r')"
    using sanitize_filename_of_name [OF ch len] by (simp add: r'_def Let_def)
  have last: "r \<noteq> [] \<Longrightarrow> last r \<noteq> 95"
    unfolding r_def sanitize_filename_guarded using rstrip_underscore_last by blast
  have r'_id: "r' = r \<longleftrightarrow> 95 \<notin> set r" by (simp add: r'_def filter_no_underscore)
  have r'_no: "95 \<notin> set r'" by (simp add: r'_def)
  have goal: "sanitize_filename r 120 = r \<longleftrightarrow>
      (r \<noteq> [] \<and> 95 \<notin> set r \<and> upper r \<notin> set WINDOWS_RESERVED) \<or>
      (r \<noteq> [] \<and> hd r = 95 \<and> upper (tl r) \<in> set WINDOWS_RESERVED)"
  proof (cases "r' = []")
    case True
    then have all: "\<forall>c\<in>set r. c = 95" by (auto simp: r'_def filter_empty_conv)
    have "r = []"
    proof (rule ccontr)
      assume "r \<noteq> []"
      with last all show False using last_in_set by blast
    qed
    then show ?thesis using True s untitled_no_underscore by auto
  next
    case ne: False
    show ?thesis
    proof (cases "upper r' \<in> set WINDOWS_RESERVED")
      case True
      have l: "sanitize_filename r 120 = 95 # r'" using s ne True by simp
      show ?thesis
      proof
        assume "sanitize_filename r 120 = r"
        with l have "r = 95 # r'" by simp
        then show "(r \<noteq> [] \<and> 95 \<notin> set r \<and> upper r \<notin> set WINDOWS_RESERVED) \<or>
          (r \<noteq> [] \<and> hd r = 95 \<and> upper (tl r) \<in> set WINDOWS_RESERVED)"
          using True by auto
      next
        assume "(r \<noteq> [] \<and> 95 \<notin> set r \<and> upper r \<notin> set WINDOWS_RESERVED) \<or>
          (r \<noteq> [] \<and> hd r = 95 \<and> upper (tl r) \<in> set WINDOWS_RESERVED)"
        then show "sanitize_filename r 120 = r"
        proof
          assume "r \<noteq> [] \<and> 95 \<notin> set r \<and> upper r \<notin> set WINDOWS_RESERVED"
          with r'_id True show ?thesis by simp
        next
          assume a: "r \<noteq> [] \<and> hd r = 95 \<and> upper (tl r) \<in> set WINDOWS_RESERVED"
          then obtain w where w: "r = 95 # w" by (cases r) auto
          with a reserved_shape have "95 \<notin> set w" by fastforce
          then have "filter (\<lambda>c. c \<noteq> 95) w = w" by (simp add: filter_no_underscore)
          then have "r' = w" by (simp add: r'_def w)
          with l w show ?thesis by simp
        qed
      qed
    next
      case False
      have l: "sanitize_filename r 120 = r'" using s ne False by simp
      have "\<not> (r \<noteq> [] \<and> hd r = 95 \<and> upper (tl r) \<in> set WINDOWS_RESERVED)"
      proof
        assume a: "r \<noteq> [] \<and> hd r = 95 \<and> upper (tl r) \<in> set WINDOWS_RESERVED"
        then obtain w where w: "r = 95 # w" by (cases r) auto
        with a reserved_shape have "95 \<notin> set w" by fastforce
        then have "filter (\<lambda>c. c \<noteq> 95) w = w" by (simp add: filter_no_underscore)
        then have "r' = w" by (simp add: r'_def w)
        with a w False show False by simp
      qed
      moreover have "r' = r \<longleftrightarrow> r \<noteq> [] \<and> 95 \<notin> set r \<and> upper r \<notin> set WINDOWS_RESERVED"
        using r'_id ne False by auto
      ultimately show ?thesis using l by blast
    qed
  qed
  then show ?thesis by (simp add: r_def Let_def)
qed


theorem sanitize_filename_shape_witness:
  "upper (cleaned (py ''con'')) \<in> set WINDOWS_RESERVED \<and>
   sanitize_filename (py ''con'') 120 = py ''_con'' \<and>
   sanitize_filename (py ''Hello,  World'') 120 \<noteq> [] \<and>
   last (sanitize_filename (py ''Hello,  World'') 120) \<noteq> 95 \<and>
   cleaned (py ''- -'') \<noteq> [] \<and> sanitize_filename (py ''- -'') 120 = []"
proof -
  have r: "upper (cleaned (py ''con'')) \<in> set WINDOWS_RESERVED"
    by (simp add: str_eval)
  have c: "cleaned (py ''con'') = py ''con''"
    by (simp add: str_eval)
  have "sanitize_filename (py ''con'') 120 = 95 # cleaned (py ''con'')"
    using sanitize_filename_shape [of "py ''con''"] r by blast
  then have 1: "sanitize_filename (py ''con'') 120 = py ''_con''"
    by (simp add: c) (simp add: py_def)
  have n: "sanitize_filename (py ''Hello,  World'') 120 \<noteq> []"
    by (simp add: str_eval)
  have 2: "last (sanitize_filename (py ''Hello,  World'') 120) \<noteq> 95"
    using sanitize_filename_shape [of "py ''Hello,  World''"] n by blast
  have e: "cleaned (py ''- -'') \<noteq> [] \<and> (\<forall>c\<in>set (take 120 (cleaned (py ''- -''))). c = 95)"
    by (simp add: str_eval)
  have 3: "sanitize_filename (py ''- -'') 120 = []"
    using sanitize_filename_shape [of "py ''- -''"] e by blast
  have 4: "cleaned (py ''- -'') \<noteq> []"
    by (simp add: str_eval)
  from r 1 n 2 3 4 show ?thesis by blast
qed

text \<open>
  The title \<^verbatim>\<open>"- -"\<close> is cleaned to one underscore, which passes both guards and is then
  stripped: the sanitizer returns the empty string.
\<close>

theorem sanitize_filename_empty_counterexample:
  "sanitize_filename (py ''- -'') 120 = []"
  by (simp add: str_eval)

text \<open>
  The same final strip uncovers a reserved name: \<^verbatim>\<open>"CON !"\<close> is cleaned to \<^verbatim>\<open>"CON_"\<close>, which
  the guard of line 42 lets through, and the result is \<^verbatim>\<open>"CON"\<close>.
\<close>

lemma sanitize_filename_reserved_uncovered:
  "sanitize_filename (py ''CON !'') 120 = py ''CON''"
  by (simp add: str_eval)

theorem sanitize_filename_fixpoint_witness:
  "sanitize_filename (sanitize_filename (py ''Hello'') 120) 120 =
     sanitize_filename (py ''Hello'') 120 \<and>
   sanitize_filename (sanitize_filename (py ''con'') 120) 120 =
     sanitize_filename (py ''con'') 120"
proof -
  have 1: "sanitize_filename (py ''Hello'') 120 = py ''Hello''"
    by (simp add: str_eval)
  have 2: "sanitize_filename (py ''con'') 120 = py ''_con''"
    by (simp add: str_eval)
  have a: "py ''Hello'' \<noteq> [] \<and> 95 \<notin> set (py ''Hello'') \<and>
      upper (py ''Hello'') \<notin> set WINDOWS_RESERVED"
    by (simp add: str_eval)
  have b: "py ''_con'' \<noteq> [] \<and> hd (py ''_con'') = 95 \<and>
      upper (tl (py ''_con'')) \<in> set WINDOWS_RESERVED"
    by (simp add: str_eval)
  show ?thesis
    using sanitize_filename_fixpoint [of "py ''Hello''"]
      sanitize_filename_fixpoint [of "py ''con''"] a b
    unfolding 1 2 Let_def by blast
qed

text \<open>
  \<^verbatim>\<open>"a b"\<close> is sanitized to \<^verbatim>\<open>"a_b"\<close>, and \<^verbatim>\<open>"a_b"\<close> to \<^verbatim>\<open>"ab"\<close>: the sanitizer is not
  idempotent.
\<close>

theorem sanitize_filename_idempotent_counterexample:
  "sanitize_filename (sanitize_filename (py ''a b'') 120) 120 \<noteq>
     sanitize_filename (py ''a b'') 120"
  by (simp add: str_eval)

section \<open>Properties of the extracted text\<close>

lemma last_dropWhile: "dropWhile P xs \<noteq> [] \<Longrightarrow> last (dropWhile P xs) = last xs"
  by (induction xs) (auto split: if_splits)

lemma strip_stripped: "stripped (strip s)"
proof (cases "strip s = []")
  case True
  then show ?thesis by (simp add: stripped_def)
next
  case False
  define a where "a = dropWhile isspace s"
  define b where "b = dropWhile isspace (rev a)"
  have s: "strip s = rev b" by (simp add: strip_def a_def b_def)
  with False have b: "b \<noteq> []" by simp
  then have a: "a \<noteq> []" by (auto simp: b_def)
  have 1: "\<not> isspace (hd b)" using b unfolding b_def by (rule hd_dropWhile)
  have "last b = last (rev a)" using b unfolding b_def by (rule last_dropWhile)
  also have "\<dots> = hd a" using a by (simp add: last_rev)
  finally have "last b = hd a" .
  moreover have "\<not> isspace (hd a)" using a unfolding a_def by (rule hd_dropWhile)
  ultimately have 2: "\<not> isspace (last b)" by simp
  from 1 2 b show ?thesis by (simp add: stripped_def s hd_rev last_rev)
qed

lemma strip_of_stripped: "stripped s \<Longrightarrow> strip s = s"
proof (cases "s = []")
  case True
  then show ?thesis by (simp add: strip_def)
next
  case False
  assume "stripped s"
  with False have h: "\<not> isspace (hd s)" and l: "\<not> isspace (last s)"
    by (auto simp: stripped_def)
  from False h have 1: "dropWhile isspace s = s" by (cases s) auto
  from False l have "\<not> isspace (hd (rev s))" by (simp add: hd_rev)
  with False have 2: "dropWhile isspace (rev s) = rev s" by (cases "rev s") auto
  show ?thesis by (simp add: strip_def 1 2)
qed

lemma join_stripped:
  "ps \<noteq> [] \<Longrightarrow> \<forall>p\<in>set ps. p \<noteq> [] \<and> stripped p \<Longrightarrow>
     join sep ps \<noteq> [] \<and> stripped (join sep ps)"
proof (induction sep ps rule: join.induct)
  case (1 sep)
  then show ?case by simp
next
  case (2 sep p)
  then show ?case by simp
next
  case (3 sep p q ps)
  then have ih: "join sep (q # ps) \<noteq> []" "stripped (join sep (q # ps))" by auto
  from 3 have p: "p \<noteq> []" "stripped p" by auto
  from ih p show ?case by (auto simp: stripped_def)
qed

lemma get_text_stripped: "stripped (get_text sep t)"
proof (cases "filter (\<lambda>s. s \<noteq> []) (map strip (strings t)) = []")
  case True
  then show ?thesis by (simp add: get_text_def stripped_def)
next
  case False
  have "\<forall>p\<in>set (filter (\<lambda>s. s \<noteq> []) (map strip (strings t))). p \<noteq> [] \<and> stripped p"
    using strip_stripped by auto
  from join_stripped [OF False this] show ?thesis by (simp add: get_text_def)
qed

lemma paragraphs_stripped: "\<forall>p\<in>set (paragraphs body). p \<noteq> [] \<and> stripped p"
  using get_text_stripped by (auto simp: paragraphs_def)

lemma strip_join_paragraphs:
  assumes "paragraphs body \<noteq> []"
  shows "join sep (paragraphs body) \<noteq> []"
    and "strip (join sep (paragraphs body)) = join sep (paragraphs body)"
  using join_stripped [OF assms paragraphs_stripped] strip_of_stripped by auto

lemma stripped_Nil: "stripped []"
  by (simp add: stripped_def)

lemma strip_Nil: "strip [] = []"
  by (simp add: strip_def)

lemma teaser_from_meta_stripped:
  "stripped teaser \<Longrightarrow> stripped (teaser_from_meta soup sels teaser)"
  by (induction soup sels teaser rule: teaser_from_meta.induct)
     (auto simp: strip_stripped stripped_Nil split: option.splits)

lemma extract_teaser_stripped: "stripped (extract_teaser soup)"
proof -
  have "stripped (teaser_from_meta soup teaser_meta_selectors [])"
    by (rule teaser_from_meta_stripped) (simp add: stripped_def)
  then show ?thesis
    by (auto simp: extract_teaser_def Let_def get_text_stripped split: option.splits)
qed

lemma body_loop_find:
  "body_loop soup sels [] =
     (case find (\<lambda>sel. container_paragraphs soup sel \<noteq> []) sels of
        None \<Rightarrow> []
      | Some sel \<Rightarrow> container_paragraphs soup sel)"
  by (induction sels) (auto simp: container_paragraphs_def split: option.splits)

lemma container_paragraphs_join:
  assumes "container_paragraphs soup sel \<noteq> []"
  shows "join sep (container_paragraphs soup sel) \<noteq> []"
    and "strip (join sep (container_paragraphs soup sel)) = join sep (container_paragraphs soup sel)"
  using assms strip_join_paragraphs
  by (auto simp: container_paragraphs_def split: option.splits)

text \<open>
  Claim C3, as the code has it. The final text is the paragraph texts, joined by a blank
  line, of the first body selector in the list whose container holds a paragraph that is
  not empty; when there is none it is the teaser, and when the teaser is empty it is
  \<^verbatim>\<open>No content available.\<close> The loop does not stop at a container without paragraphs: it
  goes on to the next selector.
\<close>

theorem extract_text:
  "fst (extract_teaser_or_body soup) =
     (case find (\<lambda>sel. container_paragraphs soup sel \<noteq> []) body_selectors of
        Some sel \<Rightarrow> join [10, 10] (container_paragraphs soup sel)
      | None \<Rightarrow> if extract_teaser soup \<noteq> [] then extract_teaser soup else no_content)"
proof (cases "find (\<lambda>sel. container_paragraphs soup sel \<noteq> []) body_selectors")
  case None
  then have "body_loop soup body_selectors [] = []" by (simp add: body_loop_find)
  then show ?thesis
    using None strip_of_stripped [OF extract_teaser_stripped]
    by (simp add: extract_teaser_or_body_def Let_def strip_Nil)
next
  case (Some sel)
  then have ne: "container_paragraphs soup sel \<noteq> []" by (auto simp: find_Some_iff)
  from Some have "body_loop soup body_selectors [] = container_paragraphs soup sel"
    by (simp add: body_loop_find)
  then show ?thesis
    using Some container_paragraphs_join [OF ne]
    by (simp add: extract_teaser_or_body_def Let_def)
qed

section \<open>Examples of extraction\<close>

lemmas page_eval = leaf_def blank_page_def page_abc_def page_two_containers_def
  page_empty_title_def page_empty_type_def page_first_def page_dashes_def

lemmas text_eval = extract_teaser_or_body_def extract_teaser_def teaser_meta_selectors_def
  body_selectors_def container_paragraphs_def paragraphs_def get_text_def no_content_def
  first_container_text_def

lemmas title_eval = extract_title_def title_meta_selectors_def title_h1_selectors_def
  nature_suffix_def get_text_def

text \<open>
  The container with the paragraphs A., B. and C.; the page with neither body nor teaser;
  and the page whose first container is empty.
\<close>

theorem extract_text_witness:
  "fst (extract_teaser_or_body page_abc) = py ''A.'' @ [10, 10] @ py ''B.'' @ [10, 10] @ py ''C.'' \<and>
   fst (extract_teaser_or_body blank_page) = py ''No content available.'' \<and>
   fst (extract_teaser_or_body page_two_containers) = py ''X''"
  using extract_text [of page_abc] extract_text [of blank_page]
    extract_text [of page_two_containers]
  by (simp add: text_eval page_eval str_eval)

text \<open>
  On the last of these pages the first container found holds no paragraph and there is no
  teaser, so a rule that stops at the first container gives the sentinel; the program
  returns the paragraph of the later container.
\<close>

theorem first_container_counterexample:
  "fst (extract_teaser_or_body page_two_containers) = py ''X'' \<and>
   first_container_text page_two_containers = py ''No content available.'' \<and>
   fst (extract_teaser_or_body page_two_containers) \<noteq> first_container_text page_two_containers"
  by (simp add: text_eval page_eval str_eval)

text \<open>Where the page has no title element at all, the result is \<^verbatim>\<open>No Title\<close>.\<close>

lemma sub_nature_suffix_No_Title: "sub_nature_suffix (py ''No Title'') = py ''No Title''"
  by (simp add: nature_suffix_def py_def isspace_def)

lemma extract_title_No_Title:
  "title_from_meta soup title_meta_selectors = None \<Longrightarrow>
   title_from_h1 soup title_h1_selectors = None \<Longrightarrow>
   soup_find soup ''title'' = None \<Longrightarrow> extract_title soup = py ''No Title''"
  by (simp add: extract_title_def sub_nature_suffix_No_Title)

text \<open>
  Claim C4. The first two stages of \<^verbatim>\<open>extract_title\<close> skip an empty candidate, the last
  one does not: \<^verbatim>\<open>No Title\<close> is returned only when the page has no title element. On a page with
  an empty title element and no other source, every fallback fails and the result is the
  empty string.
\<close>

theorem extract_title_empty:
  "title_from_meta page_empty_title title_meta_selectors = None \<and>
   title_from_h1 page_empty_title title_h1_selectors = None \<and>
   extract_title page_empty_title = []"
  by (simp add: title_eval page_eval str_eval)

lemma extract_title_first: "extract_title page_first = py ''First''"
  by (simp add: title_eval page_eval str_eval)

lemma extract_title_dashes: "extract_title page_dashes = py ''- -''"
  by (simp add: title_eval page_eval str_eval)

lemma extract_teaser_or_body_meta: "snd (extract_teaser_or_body soup) = extract_meta soup"
  by (simp add: extract_teaser_or_body_def Let_def)

text \<open>
  Claim C8. The field \<^verbatim>\<open>published\<close> is set only to a value that is not empty, but
  \<^verbatim>\<open>type\<close> is set whenever one of its two tags is found: a type tag with an empty value
  puts the empty string into the dictionary.
\<close>

theorem extract_meta_empty_type:
  "snd (extract_teaser_or_body page_empty_type) ''type'' = Some []"
  by (simp add: extract_teaser_or_body_meta extract_meta_def page_eval)

text \<open>What does hold of the two fields.\<close>

lemma extract_meta_published: "extract_meta soup ''published'' \<noteq> Some []"
  by (simp add: extract_meta_def Let_def split: option.splits)

lemma extract_meta_absent:
  \<open>select_one soup ''meta[name="dc.date"]'' = None \<Longrightarrow>
   select_one soup ''meta[itemprop="datePublished"]'' = None \<Longrightarrow>
   extract_meta soup ''published'' = None\<close>
  \<open>select_one soup ''meta[name="dc.type"]'' = None \<Longrightarrow>
   select_one soup ''span[data-test="article.type"]'' = None \<Longrightarrow>
   extract_meta soup ''type'' = None\<close>
  by (simp_all add: extract_meta_def Let_def split: option.splits)

section \<open>Properties of the crawl\<close>

lemma fetched_append: "fetched (xs @ ys) = fetched xs @ fetched ys"
  by (induction xs rule: fetched.induct) auto

lemma save_article_trace: "trace (save_article e d p it soup st) = trace st @ [Sleep]"
  by (simp add: save_article_def sleep_def Let_def split: prod.splits)

lemma save_article_seen: "seen (save_article e d p it soup st) = seen st"
  by (simp add: save_article_def sleep_def Let_def split: prod.splits)

lemma save_article_saved: "saved (save_article e d p it soup st) = saved st + 1"
  by (simp add: save_article_def sleep_def Let_def split: prod.splits)

lemma save_article_meta_f:
  "meta_f (save_article e d p it soup st) =
     meta_f st @
     [\<lparr>rec_title = extract_title soup, rec_url = item_url it,
       rec_file = article_path e (files st) d (article_fname (extract_title soup)) (item_url it),
       rec_page = p,
       rec_published = snd (extract_teaser_or_body soup) ''published'',
       rec_type = snd (extract_teaser_or_body soup) ''type'',
       rec_listed_type = item_type it\<rparr>]"
  by (simp add: save_article_def sleep_def Let_def split: prod.splits)

lemma save_article_files:
  "files (save_article e d p it soup st) =
     (files st)
       (article_path e (files st) d (article_fname (extract_title soup)) (item_url it) \<mapsto>
          (if strip (fst (extract_teaser_or_body soup)) = [] then no_content
           else fst (extract_teaser_or_body soup)))"
  by (simp add: save_article_def sleep_def Let_def split: prod.splits)

lemma process_item_skip: "item_url it \<in> seen st \<Longrightarrow> process_item e d p st it = st"
  by (simp add: process_item_def)

lemma process_item_save:
  "item_url it \<notin> seen st \<Longrightarrow> http e (trace st) (item_url it) = Response 200 soup \<Longrightarrow>
   process_item e d p st it =
     save_article e d p it soup
       (st\<lparr>seen := insert (item_url it) (seen st), trace := trace st @ [Get (item_url it) 20]\<rparr>)"
  by (simp add: process_item_def session_get_def Let_def)

lemma process_item_fail:
  "item_url it \<notin> seen st \<Longrightarrow>
   http e (trace st) (item_url it) = RequestException \<or>
   (\<exists>c soup. http e (trace st) (item_url it) = Response c soup \<and> c \<noteq> 200) \<Longrightarrow>
   process_item e d p st it =
     st\<lparr>seen := insert (item_url it) (seen st), trace := trace st @ [Get (item_url it) 20]\<rparr>"
  by (auto simp: process_item_def session_get_def Let_def)

lemma process_item_invariant:
  assumes "run_invariant st"
  shows "run_invariant (process_item e d p st it)"
proof (cases "item_url it \<in> seen st")
  case True
  with assms show ?thesis by (simp add: process_item_skip)
next
  case False
  show ?thesis
  proof (cases "\<exists>soup. http e (trace st) (item_url it) = Response 200 soup")
    case True
    then obtain soup where "http e (trace st) (item_url it) = Response 200 soup" ..
    from process_item_save [OF False this] assms False show ?thesis
      by (auto simp: run_invariant_def save_article_trace save_article_seen save_article_saved
          save_article_meta_f fetched_append)
  next
    case nok: False
    then have "http e (trace st) (item_url it) = RequestException \<or>
      (\<exists>c soup. http e (trace st) (item_url it) = Response c soup \<and> c \<noteq> 200)"
      by (cases "http e (trace st) (item_url it)") auto
    from process_item_fail [OF False this] assms False show ?thesis
      by (auto simp: run_invariant_def fetched_append)
  qed
qed

lemma foldl_process_item_invariant:
  "run_invariant st \<Longrightarrow> run_invariant (foldl (process_item e d p) st its)"
  by (induction its arbitrary: st) (simp_all add: process_item_invariant)

lemma listing_request_invariant:
  "run_invariant st \<Longrightarrow> run_invariant (st\<lparr>trace := trace st @ [Get url 15]\<rparr>)"
  by (auto simp: run_invariant_def fetched_append)

lemma sleep_invariant: "run_invariant st \<Longrightarrow> run_invariant (sleep st)"
  by (auto simp: run_invariant_def sleep_def fetched_append)

lemma process_page_invariant:
  assumes "run_invariant st"
  shows "run_invariant (process_page e ty year st n)"
proof -
  let ?st = "st\<lparr>trace := trace st @ [Get (listing_url year n) 15]\<rparr>"
  have i: "run_invariant ?st" using assms by (rule listing_request_invariant)
  show ?thesis
    using i sleep_invariant [OF i] foldl_process_item_invariant [OF i]
    by (simp add: process_page_def session_get_def Let_def split: response.splits)
qed

lemma foldl_process_page_invariant:
  "run_invariant st \<Longrightarrow> run_invariant (foldl (process_page e ty year) st ns)"
  by (induction ns arbitrary: st) (simp_all add: process_page_invariant)

lemma initial_invariant: "run_invariant (initial fs)"
  by (simp add: run_invariant_def initial_def)

lemma scrape_nature_invariant: "run_invariant (scrape_nature e pages ty year fs)"
  unfolding scrape_nature_def by (rule foldl_process_page_invariant [OF initial_invariant])

text \<open>
  Claim C5. In every run the article requests are pairwise distinct and are exactly the
  set \<^verbatim>\<open>seen\<close>; the records have pairwise distinct addresses, each of them requested, and
  \<^verbatim>\<open>saved\<close> is their number. An item whose address is in \<^verbatim>\<open>seen\<close> leaves the state as it
  is: no request, no file, no record.
\<close>

theorem fetched_once:
  "distinct (fetched (trace (scrape_nature e pages ty year fs))) \<and>
   seen (scrape_nature e pages ty year fs) = set (fetched (trace (scrape_nature e pages ty year fs))) \<and>
   distinct (map rec_url (meta_f (scrape_nature e pages ty year fs))) \<and>
   set (map rec_url (meta_f (scrape_nature e pages ty year fs)))
     \<subseteq> set (fetched (trace (scrape_nature e pages ty year fs))) \<and>
   saved (scrape_nature e pages ty year fs) = int (length (meta_f (scrape_nature e pages ty year fs))) \<and>
   (item_url it \<in> seen st \<longrightarrow> process_item e d p st it = st)"
  using scrape_nature_invariant [of e pages ty year fs]
  by (auto simp: run_invariant_def process_item_skip)

subsection \<open>The type filter\<close>

lemma parse_articles_types:
  "it \<in> set (parse_articles uj arts) \<Longrightarrow> item_type it = Some t \<Longrightarrow> stripped t"
  by (induction arts) (auto simp: Let_def get_text_stripped split: option.splits if_splits)

lemma matched_exact:
  assumes "it \<in> set (parse_listing uj html)"
  shows "(article_type = [] \<or> strip (case item_type it of None \<Rightarrow> [] | Some t \<Rightarrow> t) = article_type)
     \<longleftrightarrow> (article_type = [] \<or> item_type it = Some article_type)"
proof (cases "item_type it")
  case None
  then show ?thesis by (auto simp: strip_Nil)
next
  case (Some t)
  with assms have "stripped t" by (auto simp: parse_listing_def dest: parse_articles_types)
  then have "strip t = t" by (rule strip_of_stripped)
  with Some show ?thesis by auto
qed

text \<open>
  Claim C6. The items of a parsed listing that are processed are those whose declared type
  is the filter, character for character, and all of them when the filter is empty. The
  \<^verbatim>\<open>strip\<close> of line 166 changes nothing, since \<^verbatim>\<open>parse_listing\<close> stores stripped text.
\<close>

theorem type_filter:
  "matched article_type (parse_listing uj html) =
     filter (\<lambda>it. article_type = [] \<or> item_type it = Some article_type) (parse_listing uj html)"
  unfolding matched_def by (rule filter_cong [OF refl]) (rule matched_exact)

lemmas site_eval = summary_def listing_two_def listing_three_def web_def url_a_def url_b_def
  url_c_def BASE_URL_def

lemma parse_listing_three:
  "parse_listing (urljoin web) listing_three =
     [\<lparr>item_url = url_a, item_type = Some (py ''News'')\<rparr>,
      \<lparr>item_url = url_b, item_type = Some (py ''Comment'')\<rparr>,
      \<lparr>item_url = url_c, item_type = None\<rparr>]"
  by (simp add: parse_listing_def site_eval page_eval get_text_def str_eval)

text \<open>With the filter \<^verbatim>\<open>News\<close> and the types News, Comment and none, one item is left.\<close>

theorem type_filter_witness:
  "matched (py ''News'') (parse_listing (urljoin web) listing_three) =
     [\<lparr>item_url = url_a, item_type = Some (py ''News'')\<rparr>] \<and>
   matched [] (parse_listing (urljoin web) listing_three) =
     parse_listing (urljoin web) listing_three"
  using type_filter [of "py ''News''" "urljoin web" listing_three]
    type_filter [of "[]" "urljoin web" listing_three]
  by (simp add: parse_listing_three) (simp add: py_def)

subsection \<open>The collision suffix\<close>

lemma to_base_small: "n < 16 \<Longrightarrow> to_base 16 n = [n]"
  by (rule trans [OF to_base.simps]) simp

lemma to_base_big: "\<not> n < 16 \<Longrightarrow> to_base 16 n = to_base 16 (n div 16) @ [n mod 16]"
  by (rule trans [OF to_base.simps]) simp

lemma to_base_16_nonempty: "to_base 16 n \<noteq> []"
  by (cases "n < 16") (simp_all add: to_base_small to_base_big)

lemma to_base_16_length: "n < 16 ^ k \<Longrightarrow> 0 < k \<Longrightarrow> length (to_base 16 n) \<le> k"
proof (induction k arbitrary: n)
  case 0
  then show ?case by simp
next
  case (Suc k)
  show ?case
  proof (cases "n < 16")
    case True
    then show ?thesis by (simp add: to_base_small)
  next
    case False
    from Suc.prems(1) have "n < 16 * 16 ^ k" by simp
    then have d: "n div 16 < 16 ^ k" by (rule less_mult_imp_div_less [OF _, of n "16 ^ k" 16, unfolded mult.commute [of "16 ^ k" 16]])
    have "0 < k"
    proof (rule ccontr)
      assume "\<not> 0 < k"
      then have "k = 0" by simp
      with Suc.prems(1) False show False by simp
    qed
    from Suc.IH [OF d this] show ?thesis by (simp add: to_base_big [OF False])
  qed
qed

lemma to_base_16_digits: "d \<in> set (to_base 16 n) \<Longrightarrow> d < 16"
proof (induction n arbitrary: d rule: less_induct)
  case (less n)
  show ?case
  proof (cases "n < 16")
    case True
    with less.prems show ?thesis by (simp add: to_base_small)
  next
    case False
    then have "n div 16 < n" by simp
    from less.prems have "d \<in> set (to_base 16 (n div 16)) \<or> d = n mod 16"
      by (auto simp: to_base_big [OF False])
    then show ?thesis
    proof
      assume "d \<in> set (to_base 16 (n div 16))"
      with less.IH [OF \<open>n div 16 < n\<close>] show ?thesis .
    next
      assume "d = n mod 16"
      then show ?thesis by simp
    qed
  qed
qed

lemma digit_char_hex: "d < 16 \<Longrightarrow> hexdigit (digit_char d)"
  by (auto simp: hexdigit_def digit_char_def)

lemma hex_shape:
  assumes "n < 16 ^ 6"
  shows "1 \<le> length (hex n) \<and> length (hex n) \<le> 6 \<and> (\<forall>c\<in>set (hex n). hexdigit c)"
proof -
  have "length (to_base 16 n) \<le> 6" using assms by (rule to_base_16_length) simp
  moreover have "1 \<le> length (to_base 16 n)"
    using to_base_16_nonempty [of n] by (cases "to_base 16 n") simp_all
  moreover have "\<forall>c\<in>set (hex n). hexdigit c"
    using to_base_16_digits digit_char_hex by (auto simp: hex_def)
  ultimately show ?thesis by (simp add: hex_def)
qed

lemma hash_suffix_shape:
  "1 \<le> length (hash_suffix e url) \<and> length (hash_suffix e url) \<le> 6 \<and>
   (\<forall>c\<in>set (hash_suffix e url). hexdigit c)"
proof -
  have "nat (\<bar>py_hash e url\<bar> mod 16 ^ 6) < 16 ^ 6" by (simp add: nat_less_iff)
  then show ?thesis unfolding hash_suffix_def by (rule hex_shape)
qed

text \<open>
  Claim C7, as the code has it. When the target path exists, the article is written to the
  base name followed by an underscore and the hexadecimal numeral, without leading zeros,
  of \<^verbatim>\<open>abs(hash(url)) % 16**6\<close>: between one and six digits. No other file changes, so the
  existing file is untouched; the new record names the new file, which exists and is not
  the existing one.
\<close>

theorem collision_suffix:
  assumes "files st [d, article_fname (extract_title soup) @ py ''.txt''] \<noteq> None"
  shows "let fname = article_fname (extract_title soup);
             target = [d, fname @ py ''.txt''];
             suffix = hash_suffix e (item_url it);
             written = [d, fname @ py ''_'' @ suffix @ py ''.txt''];
             st' = save_article e d p it soup st
         in suffix = hex (nat (\<bar>py_hash e (item_url it)\<bar> mod 16 ^ 6)) \<and>
            1 \<le> length suffix \<and> length suffix \<le> 6 \<and> (\<forall>c\<in>set suffix. hexdigit c) \<and>
            written \<noteq> target \<and>
            files st' written \<noteq> None \<and>
            (\<forall>q. q \<noteq> written \<longrightarrow> files st' q = files st q) \<and>
            files st' target = files st target \<and>
            meta_f st' = meta_f st @ [last (meta_f st')] \<and>
            rec_file (last (meta_f st')) = written"
proof -
  define fname where "fname = article_fname (extract_title soup)"
  define suffix where "suffix = hash_suffix e (item_url it)"
  define target where "target = [d, fname @ py ''.txt'']"
  define written where "written = [d, fname @ py ''_'' @ suffix @ py ''.txt'']"
  define st' where "st' = save_article e d p it soup st"
  have ex: "files st target \<noteq> None" using assms by (simp add: target_def fname_def)
  have p: "article_path e (files st) d fname (item_url it) = written"
    using ex by (simp add: article_path_def Let_def written_def target_def suffix_def)
  have 1: "suffix = hex (nat (\<bar>py_hash e (item_url it)\<bar> mod 16 ^ 6))"
    by (simp only: suffix_def hash_suffix_def)
  have 2: "1 \<le> length suffix \<and> length suffix \<le> 6 \<and> (\<forall>c\<in>set suffix. hexdigit c)"
    unfolding suffix_def by (rule hash_suffix_shape)
  have 3: "written \<noteq> target" by (simp add: written_def target_def py_def)
  have f: "files st' = (files st)(written \<mapsto>
      (if strip (fst (extract_teaser_or_body soup)) = [] then no_content
       else fst (extract_teaser_or_body soup)))"
    using p by (simp add: st'_def save_article_files fname_def)
  have 4: "files st' written \<noteq> None" by (simp add: f)
  have 5: "\<forall>q. q \<noteq> written \<longrightarrow> files st' q = files st q" by (simp add: f)
  have 6: "files st' target = files st target" using 3 5 by metis
  have m: "meta_f st' = meta_f st @
     [\<lparr>rec_title = extract_title soup, rec_url = item_url it, rec_file = written, rec_page = p,
       rec_published = snd (extract_teaser_or_body soup) ''published'',
       rec_type = snd (extract_teaser_or_body soup) ''type'',
       rec_listed_type = item_type it\<rparr>]"
    using p by (simp add: st'_def save_article_meta_f fname_def)
  have 7: "meta_f st' = meta_f st @ [last (meta_f st')]" by (simp add: m)
  have 8: "rec_file (last (meta_f st')) = written" by (simp add: m)
  from 1 2 3 4 5 6 7 8 show ?thesis
    unfolding Let_def fname_def [symmetric] suffix_def [symmetric] target_def [symmetric]
      written_def [symmetric] st'_def [symmetric]
    by blast
qed

subsection \<open>A run on the example site\<close>

lemma process_item_seen: "seen (process_item e d p st it) = insert (item_url it) (seen st)"
proof (cases "item_url it \<in> seen st")
  case True
  then show ?thesis by (auto simp: process_item_skip)
next
  case False
  show ?thesis
  proof (cases "http e (trace st) (item_url it)")
    case (Response c soup)
    then show ?thesis
      using False process_item_save [OF False, of e soup d p]
        process_item_fail [OF False, of e d p]
      by (cases "c = 200") (auto simp: save_article_seen)
  next
    case RequestException
    then show ?thesis using process_item_fail [OF False, of e d p] by simp
  qed
qed

lemma web_listing: "http web tr (listing_url year n) = Response 200 listing_two"
  by (simp add: web_def listing_url_def url_a_def url_b_def BASE_URL_def py_def)

lemma web_article: "http web tr url_a = Response 200 page_first"
  "http web tr url_b = Response 200 page_first"
  by (simp_all add: web_def)

lemma url_a_b: "url_a \<noteq> url_b"
  by (simp add: url_a_def url_b_def py_def)

lemma parse_listing_two: "parse_listing (urljoin web) listing_two = [item_a, item_b]"
  by (simp add: parse_listing_def site_eval page_eval get_text_def str_eval item_a_def item_b_def)

lemma matched_all: "matched [] listing = listing"
  by (simp add: matched_def)

lemma web_page:
  "process_page web [] None st n =
     process_item web (py ''Page_'' @ str_int n) n
       (process_item web (py ''Page_'' @ str_int n) n
          (st\<lparr>trace := trace st @ [Get (listing_url None n) 15]\<rparr>) item_a) item_b"
  by (simp add: process_page_def session_get_def web_listing parse_listing_two matched_all Let_def)

lemma web_item_new:
  "url_a \<notin> seen st \<Longrightarrow> process_item web d p st item_a =
     save_article web d p item_a page_first
       (st\<lparr>seen := insert url_a (seen st), trace := trace st @ [Get url_a 20]\<rparr>)"
  "url_b \<notin> seen st \<Longrightarrow> process_item web d p st item_b =
     save_article web d p item_b page_first
       (st\<lparr>seen := insert url_b (seen st), trace := trace st @ [Get url_b 20]\<rparr>)"
  using process_item_save [of item_a st web page_first d p]
    process_item_save [of item_b st web page_first d p]
  by (simp_all add: item_a_def item_b_def web_article)

lemma web_item_seen:
  "url_a \<in> seen st \<Longrightarrow> process_item web d p st item_a = st"
  "url_b \<in> seen st \<Longrightarrow> process_item web d p st item_b = st"
  by (simp_all add: process_item_skip item_a_def item_b_def)

lemma web_first_page_trace:
  "seen st = {} \<Longrightarrow> trace (process_page web [] None st n) =
     trace st @ [Get (listing_url None n) 15, Get url_a 20, Sleep, Get url_b 20, Sleep]"
  by (simp add: web_page web_item_new save_article_seen save_article_trace url_a_b [symmetric])

lemma web_first_page_seen:
  "seen (process_page web [] None st n) = insert url_b (insert url_a (seen st))"
  by (simp add: web_page process_item_seen item_a_def item_b_def)

lemma web_later_page:
  "url_a \<in> seen st \<Longrightarrow> url_b \<in> seen st \<Longrightarrow>
   process_page web [] None st n = st\<lparr>trace := trace st @ [Get (listing_url None n) 15]\<rparr>"
  by (simp add: web_page web_item_seen)

lemma upto_1_2: "[1..2] = [1, 2::int]"
  by (simp add: upto_rec1)

lemma run_one_trace:
  "trace (scrape_nature web 1 [] None fs) =
     [Get (listing_url None 1) 15, Get url_a 20, Sleep, Get url_b 20, Sleep]"
  by (simp add: scrape_nature_def web_first_page_trace initial_def)

lemma run_two_trace:
  "trace (scrape_nature web 2 [] None fs) =
     [Get (listing_url None 1) 15, Get url_a 20, Sleep, Get url_b 20, Sleep,
      Get (listing_url None 2) 15]"
  by (simp add: scrape_nature_def upto_1_2 web_later_page web_first_page_seen
      web_first_page_trace initial_def)

lemma web_hash_b: "py_hash web url_b = - 8794739511902494365"
  by (simp add: web_def url_a_b [symmetric])

lemma hex_679581: "hex 679581 = py ''a5e9d''"
  by (simp add: hex_def to_base.simps digit_char_def py_def)

lemma web_suffix_b: "hash_suffix web url_b = py ''a5e9d''"
  by (simp add: hash_suffix_def web_hash_b hex_679581)

lemma article_fname_first: "article_fname (extract_title page_first) = py ''First''"
  by (simp add: extract_title_first article_fname_def) (simp add: str_eval)

lemma str_int_1: "str_int 1 = py ''1''"
  by (simp add: str_int_def to_base.simps digit_char_def py_def)

lemma page_1: "py ''Page_'' @ str_int 1 = py ''Page_1''"
  by (simp add: str_int_1) (simp add: py_def)

lemma first_name: "py ''First'' @ py ''.txt'' = py ''First.txt''"
  "py ''First'' @ py ''_'' @ py ''a5e9d'' @ py ''.txt'' = py ''First_a5e9d.txt''"
  by (simp_all add: py_def)

lemma item_fields: "item_url item_a = url_a" "item_url item_b = url_b"
  by (simp_all add: item_a_def item_b_def)

lemma run_one_files:
  "map rec_file (meta_f (scrape_nature web 1 [] None Map.empty)) =
     [[py ''Page_1'', py ''First.txt''], [py ''Page_1'', py ''First_a5e9d.txt'']]"
  by (simp add: scrape_nature_def initial_def web_page web_item_new save_article_seen
      save_article_meta_f save_article_files url_a_b [symmetric] item_fields
      article_fname_first article_path_def web_suffix_b page_1 first_name)

lemma run_two_urls:
  "map rec_url (meta_f (scrape_nature web 2 [] None Map.empty)) = [url_a, url_b]"
  by (simp add: scrape_nature_def upto_1_2 initial_def web_later_page web_first_page_seen)
     (simp add: web_page web_item_new save_article_seen save_article_meta_f
       url_a_b [symmetric] item_fields)

subsection \<open>Runs on the example site\<close>

text \<open>
  Two listing pages that name the same two articles: each article is requested once, in
  the first page, and has one record; on the second page both are skipped.
\<close>

theorem fetched_once_witness:
  "fetched (trace (scrape_nature web 2 [] None Map.empty)) = [url_a, url_b] \<and>
   distinct [url_a, url_b] \<and>
   map rec_url (meta_f (scrape_nature web 2 [] None Map.empty)) = [url_a, url_b] \<and>
   saved (scrape_nature web 2 [] None Map.empty) = 2 \<and>
   url_a \<in> seen (scrape_nature web 1 [] None Map.empty) \<and>
   process_item web (py ''Page_2'') 2 (scrape_nature web 1 [] None Map.empty) item_a =
     scrape_nature web 1 [] None Map.empty"
proof -
  let ?run = "scrape_nature web 2 [] None Map.empty"
  let ?one = "scrape_nature web 1 [] None Map.empty"
  have f: "fetched (trace ?run) = [url_a, url_b]" by (simp add: run_two_trace)
  have m: "map rec_url (meta_f ?run) = [url_a, url_b]" by (rule run_two_urls)
  then have "length (meta_f ?run) = 2" by (metis length_map length_Cons list.size(3) numeral_2_eq_2)
  have s: "url_a \<in> seen ?one"
    by (simp add: scrape_nature_def web_first_page_seen)
  note t = fetched_once [where e = web and pages = 2 and ty = "[]" and year = None
      and fs = Map.empty and it = item_a and st = ?one and d = "py ''Page_2''" and p = 2]
  from t f have d: "distinct [url_a, url_b]" by simp
  from t \<open>length (meta_f ?run) = 2\<close> have c: "saved ?run = 2" by simp
  from t s have k: "process_item web (py ''Page_2'') 2 ?one item_a = ?one"
    by (simp add: item_fields)
  from f d m c s k show ?thesis by blast
qed

text \<open>
  Claim C9. The option \<^verbatim>\<open>--delay\<close> is documented as the delay between requests, but the
  program sleeps only after an article is saved and after a page without matches. In a run
  over one listing page with two articles, the request for the first article follows the
  request for the listing with no sleep between them.
\<close>

theorem requests_without_delay:
  "trace (scrape_nature web 1 [] None Map.empty) =
     [Get (listing_url None 1) 15, Get url_a 20, Sleep, Get url_b 20, Sleep] \<and>
   \<not> delayed (trace (scrape_nature web 1 [] None Map.empty))"
  by (simp add: run_one_trace)

text \<open>
  In that run both articles have the title \<^verbatim>\<open>First\<close>. The second is written to
  \<^verbatim>\<open>First_a5e9d.txt\<close>: \<^verbatim>\<open>hex\<close> does not pad, and the suffix has five digits.
\<close>

theorem short_suffix_counterexample:
  "map rec_file (meta_f (scrape_nature web 1 [] None Map.empty)) =
     [[py ''Page_1'', py ''First.txt''], [py ''Page_1'', py ''First_a5e9d.txt'']] \<and>
   hash_suffix web url_b = py ''a5e9d'' \<and> length (hash_suffix web url_b) = 5"
  by (simp add: run_one_files web_suffix_b) (simp add: py_def)

text \<open>The same article, saved where \<^verbatim>\<open>Page_1/First.txt\<close> is left from an earlier run.\<close>

theorem collision_suffix_witness:
  "files (initial [[py ''Page_1'', py ''First.txt''] \<mapsto> py ''old''])
     [py ''Page_1'', article_fname (extract_title page_first) @ py ''.txt''] \<noteq> None \<and>
   rec_file (last (meta_f (save_article web (py ''Page_1'') 1 item_b page_first
     (initial [[py ''Page_1'', py ''First.txt''] \<mapsto> py ''old''])))) =
     [py ''Page_1'', py ''First_a5e9d.txt''] \<and>
   files (save_article web (py ''Page_1'') 1 item_b page_first
     (initial [[py ''Page_1'', py ''First.txt''] \<mapsto> py ''old'']))
     [py ''Page_1'', py ''First.txt''] = Some (py ''old'') \<and>
   files (save_article web (py ''Page_1'') 1 item_b page_first
     (initial [[py ''Page_1'', py ''First.txt''] \<mapsto> py ''old'']))
     [py ''Page_1'', py ''First_a5e9d.txt''] \<noteq> None"
proof -
  let ?st = "initial [[py ''Page_1'', py ''First.txt''] \<mapsto> py ''old'']"
  have h: "files ?st [py ''Page_1'', article_fname (extract_title page_first) @ py ''.txt''] \<noteq> None"
    by (simp add: initial_def article_fname_first first_name)
  have o: "files ?st [py ''Page_1'', py ''First.txt''] = Some (py ''old'')"
    by (simp add: initial_def)
  from collision_suffix [OF h, of web item_b 1] o h show ?thesis
    by (simp add: Let_def article_fname_first first_name item_fields web_suffix_b)
qed

subsection \<open>The name of the written file\<close>

text \<open>
  Claim C10. The base name of the file an article is saved to is never empty: it is the
  sanitized title, or \<^verbatim>\<open>article\<close> when the sanitized title is empty. The record names the
  file \<^verbatim>\<open>fname.txt\<close> or \<^verbatim>\<open>fname_suffix.txt\<close> in the page directory, and that file exists
  after the step.
\<close>

theorem article_fname_nonempty:
  "let fname = article_fname (extract_title soup);
       st' = save_article e d p it soup st;
       file = rec_file (last (meta_f st'))
   in fname \<noteq> [] \<and>
      (sanitize_filename (extract_title soup) 120 = [] \<longrightarrow> fname = py ''article'') \<and>
      (sanitize_filename (extract_title soup) 120 \<noteq> [] \<longrightarrow>
         fname = sanitize_filename (extract_title soup) 120) \<and>
      (file = [d, fname @ py ''.txt''] \<or>
       file = [d, fname @ py ''_'' @ hash_suffix e (item_url it) @ py ''.txt'']) \<and>
      files st' file \<noteq> None"
proof -
  have 1: "article_fname (extract_title soup) \<noteq> []"
    by (simp add: article_fname_def Let_def py_def)
  have 2: "sanitize_filename (extract_title soup) 120 = [] \<longrightarrow>
      article_fname (extract_title soup) = py ''article''"
    by (simp add: article_fname_def)
  have 3: "sanitize_filename (extract_title soup) 120 \<noteq> [] \<longrightarrow>
      article_fname (extract_title soup) = sanitize_filename (extract_title soup) 120"
    by (simp add: article_fname_def)
  have 4: "rec_file (last (meta_f (save_article e d p it soup st))) =
      article_path e (files st) d (article_fname (extract_title soup)) (item_url it)"
    by (simp add: save_article_meta_f)
  have 5: "article_path e (files st) d (article_fname (extract_title soup)) (item_url it) =
        [d, article_fname (extract_title soup) @ py ''.txt''] \<or>
      article_path e (files st) d (article_fname (extract_title soup)) (item_url it) =
        [d, article_fname (extract_title soup) @ py ''_'' @ hash_suffix e (item_url it) @ py ''.txt'']"
    by (simp add: article_path_def Let_def)
  have 6: "files (save_article e d p it soup st)
      (article_path e (files st) d (article_fname (extract_title soup)) (item_url it)) \<noteq> None"
    by (simp add: save_article_files)
  from 1 2 3 5 6 show ?thesis unfolding Let_def 4 by blast
qed

lemma article_fname_dashes: "article_fname (extract_title page_dashes) = py ''article''"
  by (simp add: extract_title_dashes article_fname_def) (simp add: str_eval)

text \<open>The title \<^verbatim>\<open>- -\<close> is sanitized to the empty string, and the file is \<^verbatim>\<open>article.txt\<close>.\<close>

theorem article_fname_nonempty_witness:
  "sanitize_filename (extract_title page_dashes) 120 = [] \<and>
   article_fname (extract_title page_dashes) = py ''article'' \<and>
   rec_file (last (meta_f (save_article web (py ''Page_1'') 1 item_a page_dashes
     (initial Map.empty)))) = [py ''Page_1'', py ''article.txt'']"
proof -
  have e: "sanitize_filename (extract_title page_dashes) 120 = []"
    by (simp add: extract_title_dashes) (simp add: str_eval)
  have n: "article_path web (files (initial Map.empty)) (py ''Page_1'') (py ''article'') url_a =
      [py ''Page_1'', py ''article.txt'']"
    by (simp add: article_path_def initial_def py_def)
  from article_fname_nonempty [of page_dashes web "py ''Page_1''" 1 item_a "initial Map.empty"] e
  have a: "article_fname (extract_title page_dashes) = py ''article''"
    by (simp add: Let_def)
  then show ?thesis using e n by (simp add: save_article_meta_f item_fields)
qed

end
